theory Spec2Isabelle
  imports Main "HOL-Library.Char_ord" "HOL-Library.List_Lexorder"
begin

section \<open>Checkpoint discovery and policy mapping (multigrid/utils/training\_utilis.py)\<close>

text \<open>
  The two functions verified here are glue code over \<open>pathlib\<close> and \<open>os.path\<close>.
  The embedding keeps the library boundary where the source has it: every library call
  the source makes (\<open>Path(...)\<close>, \<open>expanduser\<close>, \<open>glob\<close>, \<open>os.path.getmtime\<close>,
  \<open>iterdir\<close>, \<open>is_dir\<close>, \<open>sorted\<close>, indexing, \<open>%\<close>) is a function of the model, the
  ones that read the disk are fields of a record describing the filesystem at call time,
  and every exception the source can meet is a value \<open>Inl e\<close>.
\<close>

subsection \<open>Exceptions\<close>

datatype exn =
  TypeError | IndexError | ZeroDivisionError | ValueError | RuntimeError
  | FileNotFoundError | NotADirectoryError | PermissionError | OSError

definition bind_exn :: "exn + 'a \<Rightarrow> ('a \<Rightarrow> exn + 'b) \<Rightarrow> exn + 'b" where
  "bind_exn m f = (case m of Inl e \<Rightarrow> Inl e | Inr x \<Rightarrow> f x)"

subsection \<open>Pure paths\<close>

text \<open>
  A \<open>PurePosixPath\<close>: its anchor (\<open>''''\<close> for a relative path, \<open>''/''\<close> or \<open>''//''\<close>
  otherwise) and its components. File names are byte strings; on them the order of
  \<open>HOL-Library.Char_ord\<close> and \<open>List_Lexorder\<close> is Python's string order.
\<close>

datatype path = Path (anchor: string) (parts: "string list")

fun split_sep :: "char \<Rightarrow> string \<Rightarrow> string list" where
  "split_sep c [] = [[]]"
| "split_sep c (x # xs) =
     (if x = c then [] # split_sep c xs
      else (case split_sep c xs of [] \<Rightarrow> [[x]] | w # ws \<Rightarrow> (x # w) # ws))"

definition Path_of_str :: "string \<Rightarrow> path" where
  "Path_of_str s =
     Path (if take 2 s = ''//'' \<and> take 3 s \<noteq> ''///'' then ''//''
           else if take 1 s = ''/'' then ''/'' else [])
          (filter (\<lambda>c. c \<noteq> [] \<and> c \<noteq> ''.'') (split_sep (CHR ''/'') s))"

definition parent :: "path \<Rightarrow> path" where
  "parent p = (if parts p = [] then p else Path (anchor p) (butlast (parts p)))"

definition name :: "path \<Rightarrow> string" where
  "name p = (if parts p = [] then [] else last (parts p))"

definition truediv :: "path \<Rightarrow> string \<Rightarrow> path" where
  "truediv p s =
     (let q = Path_of_str s
      in if anchor q \<noteq> [] then q else Path (anchor p) (parts p @ parts q))"

text \<open>The key \<open>sorted\<close> compares two paths by: the anchor, then the components.\<close>

definition path_key :: "path \<Rightarrow> string list" where
  "path_key p = anchor p # parts p"

definition py_sorted :: "path list \<Rightarrow> path list" where
  "py_sorted ps = sort_key path_key ps"

subsection \<open>Arguments typed \<open>Path | str | None\<close>\<close>

datatype pathlike = PyNone | PyStr string | PyPath path

fun Path_ctor :: "pathlike \<Rightarrow> exn + path" where
  "Path_ctor PyNone = Inl TypeError"
| "Path_ctor (PyStr s) = Inr (Path_of_str s)"
| "Path_ctor (PyPath p) = Inr p"

text \<open>
  \<open>checkpoint_dir / "policies"\<close>: only a path object has the operator; \<open>None\<close> and a
  \<open>str\<close> on the left raise \<open>TypeError\<close>.
\<close>

fun pathlike_truediv :: "pathlike \<Rightarrow> string \<Rightarrow> exn + path" where
  "pathlike_truediv PyNone s = Inl TypeError"
| "pathlike_truediv (PyStr l) s = Inl TypeError"
| "pathlike_truediv (PyPath p) s = Inr (truediv p s)"

subsection \<open>Python built-ins used by the source\<close>

text \<open>
  A generator, as its consumer sees it: the items it yields, then either the end or an
  exception.
\<close>

type_synonym 'a gen = "'a list \<times> exn option"

fun exhaust :: "'a gen \<Rightarrow> exn + 'a list" where
  "exhaust (xs, None) = Inr xs"
| "exhaust (xs, Some e) = Inl e"

text \<open>A generator object is always true in a boolean context.\<close>

definition gen_truthy :: "'a gen \<Rightarrow> bool" where
  "gen_truthy g = True"

fun map_exn :: "('a \<Rightarrow> exn + 'b) \<Rightarrow> 'a list \<Rightarrow> exn + 'b list" where
  "map_exn f [] = Inr []"
| "map_exn f (x # xs) =
     (case f x of
        Inl e \<Rightarrow> Inl e
      | Inr y \<Rightarrow> (case map_exn f xs of Inl e \<Rightarrow> Inl e | Inr ys \<Rightarrow> Inr (y # ys)))"

text \<open>
  \<open>sorted(iterable, key=k)\<close>: the iterable is exhausted, the key of every item is
  computed in order, and the items are sorted by key, stably.
\<close>

definition py_sorted_key :: "('a \<Rightarrow> exn + 'k::linorder) \<Rightarrow> 'a gen \<Rightarrow> exn + 'a list" where
  "py_sorted_key k g =
     bind_exn (exhaust g) (\<lambda>xs.
     bind_exn (map_exn k xs) (\<lambda>ks.
     Inr (map snd (sort_key fst (zip ks xs)))))"

text \<open>\<open>xs[i]\<close>: negative indices count from the end, anything else out of range raises.\<close>

definition py_getitem :: "'a list \<Rightarrow> int \<Rightarrow> exn + 'a" where
  "py_getitem xs i =
     (if 0 \<le> i \<and> i < int (length xs) then Inr (xs ! nat i)
      else if i < 0 \<and> - int (length xs) \<le> i then Inr (xs ! nat (int (length xs) + i))
      else Inl IndexError)"

text \<open>\<open>a % b\<close> on integers: the sign of the result is the divisor's, as with HOL's \<open>mod\<close>.\<close>

definition py_mod :: "int \<Rightarrow> int \<Rightarrow> exn + int" where
  "py_mod a b = (if b = 0 then Inl ZeroDivisionError else Inr (a mod b))"

text \<open>\<open>[x for x in g if c(x)]\<close>: the condition is evaluated as each item arrives.\<close>

fun list_comp_if :: "('a \<Rightarrow> exn + bool) \<Rightarrow> 'a gen \<Rightarrow> exn + 'a list" where
  "list_comp_if c ([], None) = Inr []"
| "list_comp_if c ([], Some e) = Inl e"
| "list_comp_if c (x # xs, t) =
     (case c x of
        Inl e \<Rightarrow> Inl e
      | Inr b \<Rightarrow>
          (case list_comp_if c (xs, t) of
             Inl e \<Rightarrow> Inl e
           | Inr ys \<Rightarrow> Inr (if b then x # ys else ys)))"

text \<open>\<open>str(n)\<close> for an integer, as the f-string \<open>f"policy_{agent_id}"\<close> formats it.\<close>

definition digit_char :: "nat \<Rightarrow> char" where
  "digit_char d = ''0123456789'' ! d"

fun str_nat :: "nat \<Rightarrow> string" where
  "str_nat n = (if n < 10 then [digit_char n] else str_nat (n div 10) @ [digit_char (n mod 10)])"

declare str_nat.simps [simp del]

definition str_int :: "int \<Rightarrow> string" where
  "str_int i = (if i < 0 then CHR ''-'' # str_nat (nat (- i)) else str_nat (nat i))"

subsection \<open>The filesystem and the process state\<close>

text \<open>
  What the disk answers at call time. \<open>'t\<close> is the type of modification times
  (\<open>os.path.getmtime\<close> returns a finite float; only their order is used).
\<close>

record 't filesystem =
  expanduser :: "path \<Rightarrow> exn + path"
  glob :: "path \<Rightarrow> string \<Rightarrow> path gen"
  getmtime :: "path \<Rightarrow> exn + 't"
  iterdir :: "path \<Rightarrow> path gen"
  is_dir :: "path \<Rightarrow> exn + bool"

text \<open>
  The lines \<open>print\<close> writes, by their arguments. Writing to standard output is taken to
  succeed.
\<close>

datatype out_line = Loading_policies_from pathlike | Agent_ID_Policy_ID int string

record 't world =
  fs :: "'t filesystem"
  stdout :: "out_line list"

subsection \<open>\<open>get_checkpoint_dir\<close>\<close>

text \<open>The body of the \<open>try\<close> block (source lines 24 to 26).\<close>

definition get_checkpoint_dir_try :: "('t::linorder) filesystem \<Rightarrow> pathlike \<Rightarrow> exn + path option" where
  "get_checkpoint_dir_try f search_dir =
     bind_exn (Path_ctor search_dir) (\<lambda>p.
     bind_exn (expanduser f p) (\<lambda>p'.
     let checkpoints = glob f p' ''**/*.is_checkpoint''
     in if gen_truthy checkpoints
        then bind_exn (py_sorted_key (getmtime f) checkpoints) (\<lambda>s.
             bind_exn (py_getitem s (- 1)) (\<lambda>m.
             Inr (Some (parent m))))
        else Inr None))"

text \<open>
  The whole function: the bare \<open>except: pass\<close> turns every exception into the implicit
  \<open>return None\<close>. Nothing is written; the world is returned as it was.
\<close>

definition get_checkpoint_dir :: "pathlike \<Rightarrow> ('t::linorder) world \<Rightarrow> path option \<times> 't world" where
  "get_checkpoint_dir search_dir w =
     (case get_checkpoint_dir_try (fs w) search_dir of
        Inl e \<Rightarrow> (None, w)
      | Inr r \<Rightarrow> (r, w))"

subsection \<open>\<open>get_policy_mapping_fn\<close>\<close>

text \<open>The extra positional and keyword arguments \<open>*args, **kwargs\<close> of a mapping function.\<close>

type_synonym 'x extras = "'x list \<times> (string \<times> 'x) list"

type_synonym 'x mapping_fn = "int \<Rightarrow> 'x extras \<Rightarrow> exn + string"

text \<open>Source line 44: the policy directories, sorted.\<close>

definition list_policies :: "'t filesystem \<Rightarrow> pathlike \<Rightarrow> exn + path list" where
  "list_policies f checkpoint_dir =
     bind_exn (pathlike_truediv checkpoint_dir ''policies'') (\<lambda>d.
     bind_exn (list_comp_if (is_dir f) (iterdir f d)) (\<lambda>ps.
     Inr (py_sorted ps)))"

text \<open>Source lines 46 and 47: the nested \<open>policy_mapping_fn\<close>, closed over \<open>policies\<close>.\<close>

definition policy_mapping_fn_nested :: "path list \<Rightarrow> 'x mapping_fn" where
  "policy_mapping_fn_nested policies agent_id extra =
     bind_exn (py_mod agent_id (int (length policies))) (\<lambda>k.
     bind_exn (py_getitem policies k) (\<lambda>p.
     Inr (name p)))"

text \<open>
  Source lines 50 and 51: the loop over \<open>range(num_agents)\<close>. It stops at the first
  exception; what was printed before stays printed.
\<close>

fun print_agents :: "'x mapping_fn \<Rightarrow> int list \<Rightarrow> out_line list \<Rightarrow> exn option \<times> out_line list" where
  "print_agents f [] out = (None, out)"
| "print_agents f (agent_id # rest) out =
     (case f agent_id ([], []) of
        Inl e \<Rightarrow> (Some e, out)
      | Inr pid \<Rightarrow> print_agents f rest (out @ [Agent_ID_Policy_ID agent_id pid]))"

definition py_range :: "int \<Rightarrow> int list" where
  "py_range n = [0..n - 1]"

text \<open>The body of the \<open>try\<close> block (source lines 44 to 53).\<close>

definition get_policy_mapping_fn_try ::
  "pathlike \<Rightarrow> int \<Rightarrow> 't world \<Rightarrow> (exn + 'x mapping_fn) \<times> 't world" where
  "get_policy_mapping_fn_try checkpoint_dir num_agents w =
     (case list_policies (fs w) checkpoint_dir of
        Inl e \<Rightarrow> (Inl e, w)
      | Inr policies \<Rightarrow>
          (case print_agents (policy_mapping_fn_nested policies :: 'x mapping_fn) (py_range num_agents)
                  (stdout w @ [Loading_policies_from checkpoint_dir]) of
             (Some e, out) \<Rightarrow> (Inl e, w\<lparr>stdout := out\<rparr>)
           | (None, out) \<Rightarrow> (Inr (policy_mapping_fn_nested policies), w\<lparr>stdout := out\<rparr>)))"

text \<open>The whole function: the bare \<open>except\<close> returns the lambda of source line 56.\<close>

definition get_policy_mapping_fn ::
  "pathlike \<Rightarrow> int \<Rightarrow> 't world \<Rightarrow> 'x mapping_fn \<times> 't world" where
  "get_policy_mapping_fn checkpoint_dir num_agents w =
     (case get_policy_mapping_fn_try checkpoint_dir num_agents w of
        (Inl e, w') \<Rightarrow> (\<lambda>agent_id extra. Inr (''policy_'' @ str_int agent_id), w')
      | (Inr policy_mapping_fn, w') \<Rightarrow> (policy_mapping_fn, w'))"

subsection \<open>The module-level \<open>policy_mapping_fn\<close>\<close>

definition policy_mapping_fn :: "'x mapping_fn" where
  "policy_mapping_fn agent_id extra = Inr (''policy_'' @ str_int agent_id)"

subsection \<open>What \<open>iterdir\<close> yields\<close>

text \<open>
  \<open>d.iterdir()\<close> yields paths of the form \<open>d / entry\<close>. The record above does not say so
  (it only records answers); where a statement needs it, it is this predicate.
\<close>

definition child_of :: "path \<Rightarrow> path \<Rightarrow> bool" where
  "child_of d e = (anchor e = anchor d \<and> parts e = parts d @ [name e])"

subsection \<open>An example tree\<close>

text \<open>
  The scenarios of the specification, as one filesystem: two checkpoints under \<open>runs\<close>,
  \<open>runs/a/ckpt1\<close> (marker modified at time 1, a \<open>policies\<close> directory holding only a file)
  and \<open>runs/b/ckpt2\<close> (marker modified at time 2, policies \<open>policy_b\<close> and \<open>policy_a\<close>
  listed in that order, and a file), a directory \<open>locked/policies\<close> that cannot be read, and
  nothing else.
\<close>

definition runs :: path where
  "runs = Path [] [''runs'']"

definition ckpt1 :: path where
  "ckpt1 = Path [] [''runs'', ''a'', ''ckpt1'']"

definition ckpt2 :: path where
  "ckpt2 = Path [] [''runs'', ''b'', ''ckpt2'']"

definition example_fs :: "int filesystem" where
  "example_fs =
     \<lparr> expanduser = Inr,
       glob = (\<lambda>p pat.
         if p = runs \<and> pat = ''**/*.is_checkpoint''
         then ([truediv ckpt1 ''.is_checkpoint'', truediv ckpt2 ''.is_checkpoint''], None)
         else ([], None)),
       getmtime = (\<lambda>m.
         if m = truediv ckpt1 ''.is_checkpoint'' then Inr 1
         else if m = truediv ckpt2 ''.is_checkpoint'' then Inr 2
         else Inl FileNotFoundError),
       iterdir = (\<lambda>d.
         if d = truediv ckpt2 ''policies''
         then ([truediv d ''policy_b'', truediv d ''policy_a'', truediv d ''notes.txt''], None)
         else if d = truediv ckpt1 ''policies'' then ([truediv d ''notes.txt''], None)
         else if d = Path [] [''locked'', ''policies''] then ([], Some PermissionError)
         else ([], Some FileNotFoundError)),
       is_dir = (\<lambda>e. Inr (e \<in> {truediv (truediv ckpt2 ''policies'') ''policy_a'',
                                  truediv (truediv ckpt2 ''policies'') ''policy_b'',
                                  truediv ckpt1 ''policies'', truediv ckpt2 ''policies''})) \<rparr>"

definition example_world :: "int world" where
  "example_world = \<lparr> fs = example_fs, stdout = [] \<rparr>"

section \<open>Basic facts\<close>

lemma bind_exn_simps:
  "bind_exn (Inl e) f = Inl e"
  "bind_exn (Inr x) f = f x"
  by (simp_all add: bind_exn_def)

lemmas example_defs =
  example_world_def example_fs_def runs_def ckpt1_def ckpt2_def truediv_def Path_of_str_def

lemmas run_defs =
  get_policy_mapping_fn_def get_policy_mapping_fn_try_def list_policies_def bind_exn_simps
  py_sorted_def path_key_def py_range_def upto_rec1 policy_mapping_fn_nested_def py_mod_def
  py_getitem_def name_def str_int_def str_nat.simps digit_char_def

subsection \<open>Formatting integers: distinct agents get distinct fallback identifiers\<close>

lemma digit_char_inj:
  assumes "a < 10" "b < 10" "digit_char a = digit_char b"
  shows "a = b"
proof -
  have "a \<in> {0, 1, 2, 3, 4, 5, 6, 7, 8, 9}" "b \<in> {0, 1, 2, 3, 4, 5, 6, 7, 8, 9}"
    using assms(1,2) by auto
  then show ?thesis using assms(3) by (auto simp: digit_char_def)
qed

lemma digit_char_digit: "d < 10 \<Longrightarrow> digit_char d \<in> set ''0123456789''"
proof -
  assume "d < 10"
  then have "d \<in> {0, 1, 2, 3, 4, 5, 6, 7, 8, 9}" by auto
  then show ?thesis by (auto simp: digit_char_def)
qed

lemma str_nat_small: "n < 10 \<Longrightarrow> str_nat n = [digit_char n]"
  by (subst str_nat.simps) simp

lemma str_nat_large: "\<not> n < 10 \<Longrightarrow> str_nat n = str_nat (n div 10) @ [digit_char (n mod 10)]"
  by (subst str_nat.simps) simp

lemma str_nat_nonempty: "str_nat n \<noteq> []"
  by (cases "n < 10") (simp_all add: str_nat_small str_nat_large)

lemma str_nat_digits: "set (str_nat n) \<subseteq> set ''0123456789''"
proof (induction n rule: str_nat.induct)
  case (1 n)
  show ?case
  proof (cases "n < 10")
    case True
    then show ?thesis using digit_char_digit [of n] by (simp only: str_nat_small) simp
  next
    case False
    have "n mod 10 < 10" by simp
    then have "digit_char (n mod 10) \<in> set ''0123456789''" by (rule digit_char_digit)
    then show ?thesis using 1 False by (simp only: str_nat_large [OF False]) simp
  qed
qed

lemma str_nat_inj: "str_nat m = str_nat n \<Longrightarrow> m = n"
proof (induction m arbitrary: n rule: str_nat.induct)
  case (1 m)
  show ?case
  proof (cases "m < 10")
    case True
    note m = str_nat_small [OF True]
    show ?thesis
    proof (cases "n < 10")
      case True
      then show ?thesis using "1.prems" m \<open>m < 10\<close> digit_char_inj by (simp only: str_nat_small) simp
    next
      case False
      have "length (str_nat n) \<ge> 2"
        using str_nat_nonempty [of "n div 10"]
        by (simp only: str_nat_large [OF False]) (simp add: Suc_le_eq)
      moreover have "length (str_nat m) = 1" by (simp only: m) simp
      ultimately show ?thesis using "1.prems" by simp
    qed
  next
    case False
    note m = str_nat_large [OF False]
    show ?thesis
    proof (cases "n < 10")
      case True
      have "length (str_nat m) \<ge> 2"
        using str_nat_nonempty [of "m div 10"]
        by (simp only: m) (simp add: Suc_le_eq)
      moreover have "length (str_nat n) = 1" by (simp only: str_nat_small [OF True]) simp
      ultimately show ?thesis using "1.prems" by simp
    next
      case nl: False
      from "1.prems" have eq: "str_nat (m div 10) @ [digit_char (m mod 10)]
            = str_nat (n div 10) @ [digit_char (n mod 10)]"
        by (simp only: m str_nat_large [OF nl])
      then have a: "str_nat (m div 10) = str_nat (n div 10)"
        and b: "digit_char (m mod 10) = digit_char (n mod 10)" by simp_all
      from "1.IH" [OF False a] have d: "m div 10 = n div 10" .
      have e: "m mod 10 = n mod 10" by (rule digit_char_inj [OF _ _ b]) simp_all
      from d e show ?thesis by (metis div_mult_mod_eq)
    qed
  qed
qed

lemma str_int_inj: "str_int i = str_int j \<Longrightarrow> i = j"
proof -
  assume eq: "str_int i = str_int j"
  have nodash: "\<And>n. hd (str_nat n) \<noteq> CHR ''-''"
  proof -
    fix n
    have "hd (str_nat n) \<in> set (str_nat n)" using str_nat_nonempty by simp
    then have "hd (str_nat n) \<in> set ''0123456789''" using str_nat_digits by blast
    then show "hd (str_nat n) \<noteq> CHR ''-''" by auto
  qed
  show ?thesis
  proof (cases "i < 0")
    case True
    show ?thesis
    proof (cases "j < 0")
      case jn: True
      with True eq have "str_nat (nat (- i)) = str_nat (nat (- j))" by (simp add: str_int_def)
      then have "nat (- i) = nat (- j)" by (rule str_nat_inj)
      with True jn show ?thesis by simp
    next
      case False
      with True eq have "CHR ''-'' # str_nat (nat (- i)) = str_nat (nat j)" by (simp add: str_int_def)
      then have "hd (str_nat (nat j)) = CHR ''-''" by (metis list.sel(1))
      with nodash show ?thesis by blast
    qed
  next
    case False
    show ?thesis
    proof (cases "j < 0")
      case True
      with False eq have "str_nat (nat i) = CHR ''-'' # str_nat (nat (- j))" by (simp add: str_int_def)
      then have "hd (str_nat (nat i)) = CHR ''-''" by (metis list.sel(1))
      with nodash show ?thesis by blast
    next
      case jp: False
      with False eq have "str_nat (nat i) = str_nat (nat j)" by (simp add: str_int_def)
      then have "nat i = nat j" by (rule str_nat_inj)
      with False jp show ?thesis by simp
    qed
  qed
qed

subsection \<open>Indexing, sorting and the last element\<close>

lemma py_getitem_last: "xs \<noteq> [] \<Longrightarrow> py_getitem xs (- 1) = Inr (last xs)"
proof -
  assume ne: "xs \<noteq> []"
  then have len: "1 \<le> int (length xs)" by (cases xs) simp_all
  have "nat (int (length xs) + - 1) = length xs - 1" by simp
  then have "xs ! nat (int (length xs) + - 1) = last xs"
    using ne by (simp add: last_conv_nth)
  then show ?thesis
    using len by (simp add: py_getitem_def)
qed

lemma py_getitem_empty: "py_getitem [] i = Inl IndexError"
  by (simp add: py_getitem_def)

lemma sorted_le_last: "sorted xs \<Longrightarrow> x \<in> set xs \<Longrightarrow> x \<le> last xs"
  by (induction xs) auto

lemma last_sort_key_max:
  assumes "xs \<noteq> []"
  shows "last (sort_key f xs) \<in> set xs \<and> (\<forall>x\<in>set xs. f x \<le> f (last (sort_key f xs)))"
proof -
  let ?s = "sort_key f xs"
  have ne: "?s \<noteq> []" using assms by (metis length_sort length_0_conv)
  have mem: "last ?s \<in> set xs" using last_in_set [OF ne] by simp
  have "\<forall>x\<in>set xs. f x \<le> f (last ?s)"
  proof
    fix x assume "x \<in> set xs"
    then have "f x \<in> set (map f ?s)" by simp
    then have "f x \<le> last (map f ?s)" by (rule sorted_le_last [OF sorted_sort_key])
    then show "f x \<le> f (last ?s)" by (simp add: last_map ne)
  qed
  with mem show ?thesis by blast
qed

lemma map_exn_all_ok: "(\<And>x. x \<in> set xs \<Longrightarrow> k x = Inr (g x)) \<Longrightarrow> map_exn k xs = Inr (map g xs)"
  by (induction xs) simp_all

lemma map_exn_some_fails: "x \<in> set xs \<Longrightarrow> k x = Inl e \<Longrightarrow> \<exists>e'. map_exn k xs = Inl e'"
  by (induction xs) (auto split: sum.splits)

lemma py_sorted_key_ok:
  assumes "\<And>x. x \<in> set xs \<Longrightarrow> k x = Inr (g x)"
  shows "py_sorted_key k (xs, None) = Inr (map snd (sort_key fst (zip (map g xs) xs)))"
  by (simp add: py_sorted_key_def bind_exn_simps map_exn_all_ok [of xs k g, OF assms])

lemma last_decorated:
  assumes "xs \<noteq> []"
  shows "\<exists>m\<in>set xs. last (map snd (sort_key fst (zip (map g xs) xs))) = m \<and> (\<forall>x\<in>set xs. g x \<le> g m)"
proof -
  let ?zs = "zip (map g xs) xs"
  have zne: "?zs \<noteq> []" using assms by (cases xs) auto
  have sne: "sort_key fst ?zs \<noteq> []" using zne by (metis length_sort length_0_conv)
  from last_sort_key_max [OF zne, of fst]
  have mem: "last (sort_key fst ?zs) \<in> set ?zs"
    and mx: "\<forall>z\<in>set ?zs. fst z \<le> fst (last (sort_key fst ?zs))" by blast+
  obtain t m where tm: "last (sort_key fst ?zs) = (t, m)" by (cases "last (sort_key fst ?zs)")
  have zs: "set ?zs = (\<lambda>x. (g x, x)) ` set xs"
    by (induction xs) auto
  from mem tm zs have m: "m \<in> set xs" "t = g m" by auto
  have "\<forall>x\<in>set xs. g x \<le> g m"
  proof
    fix x assume "x \<in> set xs"
    then have "(g x, x) \<in> set ?zs" using zs by blast
    with mx tm m show "g x \<le> g m" by fastforce
  qed
  moreover have "last (map snd (sort_key fst ?zs)) = m"
    using tm sne by (simp add: last_map)
  ultimately show ?thesis using m by blast
qed

subsection \<open>Sorting the children of one directory is sorting their names\<close>

lemma append_le_cancel: "(pre @ [a] \<le> pre @ [b]) = (a \<le> (b::'a::linorder))"
  by (induction pre) (auto simp: le_less)

lemma path_key_child: "child_of d e \<Longrightarrow> path_key e = anchor d # parts d @ [name e]"
  by (simp add: child_of_def path_key_def)

lemma insort_children:
  assumes "child_of d p" "\<forall>x\<in>set xs. child_of d x"
  shows "map name (insort_key path_key p xs) = insort_key (\<lambda>n. n) (name p) (map name xs)"
  using assms(2)
proof (induction xs)
  case Nil
  then show ?case by simp
next
  case (Cons x xs)
  then have "child_of d x" by simp
  then have "(path_key p \<le> path_key x) = (name p \<le> name x)"
    using assms(1) by (simp add: path_key_child append_le_cancel)
  then show ?case using Cons by simp
qed

lemma sort_children:
  "\<forall>x\<in>set ps. child_of d x \<Longrightarrow> map name (py_sorted ps) = sort (map name ps)"
proof (induction ps)
  case Nil
  then show ?case by (simp add: py_sorted_def)
next
  case (Cons p ps)
  then have ih: "map name (sort_key path_key ps) = sort (map name ps)"
    by (simp add: py_sorted_def)
  have "\<forall>x\<in>set (sort_key path_key ps). child_of d x" using Cons.prems by simp
  then have "map name (insort_key path_key p (sort_key path_key ps))
           = insort_key (\<lambda>n. n) (name p) (map name (sort_key path_key ps))"
    using Cons.prems by (intro insort_children [of d]) simp_all
  then show ?case by (simp add: py_sorted_def ih)
qed

subsection \<open>The outcome of source line 44\<close>

lemma list_comp_if_ok:
  "(\<And>x. x \<in> set xs \<Longrightarrow> c x = Inr (b x)) \<Longrightarrow> list_comp_if c (xs, None) = Inr (filter b xs)"
  by (induction xs) simp_all

lemma list_comp_if_raise: "\<exists>e'. list_comp_if c (xs, Some e) = Inl e'"
  by (induction xs) (auto split: sum.splits)

lemma list_policies_ok:
  assumes "iterdir f (truediv d ''policies'') = (es, None)"
    and "\<forall>e\<in>set es. is_dir f e = Inr (isd e)"
  shows "list_policies f (PyPath d) = Inr (py_sorted (filter isd es))"
  using assms by (simp add: list_policies_def bind_exn_simps list_comp_if_ok [of es "is_dir f" isd])

lemma list_policies_raise:
  assumes "snd (iterdir f (truediv d ''policies'')) \<noteq> None"
  shows "\<exists>e. list_policies f (PyPath d) = Inl e"
proof -
  obtain es e where "iterdir f (truediv d ''policies'') = (es, Some e)"
    using assms by (cases "iterdir f (truediv d ''policies'')") auto
  then show ?thesis
    using list_comp_if_raise [of "is_dir f" es e]
    by (auto simp: list_policies_def bind_exn_simps)
qed

lemma list_comp_if_cond_raises:
  "x \<in> set xs \<Longrightarrow> c x = Inl e \<Longrightarrow> \<exists>e'. list_comp_if c (xs, t) = Inl e'"
  by (induction xs) (auto split: sum.splits)

lemma list_policies_is_dir_raises:
  assumes "e \<in> set (fst (iterdir f (truediv d ''policies'')))" and "is_dir f e = Inl x"
  shows "\<exists>e'. list_policies f (PyPath d) = Inl e'"
proof -
  obtain es t where it: "iterdir f (truediv d ''policies'') = (es, t)"
    by (cases "iterdir f (truediv d ''policies'')")
  with assms(1) have "e \<in> set es" by simp
  from list_comp_if_cond_raises [of e es "is_dir f" x t, OF this assms(2)]
  obtain e' where "list_comp_if (is_dir f) (es, t) = Inl e'" by blast
  with it show ?thesis by (simp add: list_policies_def bind_exn_simps)
qed

lemma list_policies_none_dirs:
  assumes "iterdir f (truediv d ''policies'') = (es, None)"
    and "\<forall>e\<in>set es. is_dir f e = Inr False"
  shows "list_policies f (PyPath d) = Inr []"
  using list_policies_ok [of f d es "\<lambda>e. False"] assms by (simp add: py_sorted_def)

subsection \<open>The nested function and the loop\<close>

lemma nested_nonempty:
  "policies \<noteq> [] \<Longrightarrow>
   policy_mapping_fn_nested policies i x = Inr (name (policies ! nat (i mod int (length policies))))"
proof -
  assume ne: "policies \<noteq> []"
  then have pos: "0 < int (length policies)" by simp
  have "0 \<le> i mod int (length policies)" "i mod int (length policies) < int (length policies)"
    using pos by simp_all
  then have "py_getitem policies (i mod int (length policies))
               = Inr (policies ! nat (i mod int (length policies)))"
    by (simp add: py_getitem_def)
  then show ?thesis
    using ne by (simp add: policy_mapping_fn_nested_def py_mod_def bind_exn_simps)
qed

lemma nested_empty: "policy_mapping_fn_nested [] i x = Inl ZeroDivisionError"
  by (simp add: policy_mapping_fn_nested_def py_mod_def bind_exn_simps)

lemma print_agents_total:
  "(\<And>a. \<exists>s. f a ([], []) = Inr s) \<Longrightarrow> fst (print_agents f ags out) = None"
proof (induction ags arbitrary: out)
  case Nil
  then show ?case by simp
next
  case (Cons a ags)
  from Cons.prems obtain s where "f a ([], []) = Inr s" by blast
  then show ?case using Cons by simp
qed

lemma print_agents_result: "fst (print_agents f ags out) = fst (print_agents f ags out')"
  by (induction ags arbitrary: out out') (auto split: sum.splits)

lemma py_range_pos: "0 < n \<Longrightarrow> py_range n = 0 # [1..n - 1]"
  by (simp add: py_range_def upto_rec1)

lemma py_range_nonpos: "n \<le> 0 \<Longrightarrow> py_range n = []"
  by (simp add: py_range_def)

subsection \<open>The four ways through \<open>get_policy_mapping_fn\<close>\<close>

lemma gpmf_listing_raises:
  "list_policies (fs w) cd = Inl e \<Longrightarrow>
   get_policy_mapping_fn cd n w = (\<lambda>agent_id extra. Inr (''policy_'' @ str_int agent_id), w)"
  by (simp add: get_policy_mapping_fn_def get_policy_mapping_fn_try_def)

lemma gpmf_nonempty:
  assumes "list_policies (fs w) cd = Inr ps" "ps \<noteq> []"
  shows "fst (get_policy_mapping_fn cd n w) = (policy_mapping_fn_nested ps :: 'x mapping_fn)"
proof -
  have "\<And>f :: 'x mapping_fn. f = policy_mapping_fn_nested ps \<Longrightarrow>
          fst (print_agents f (py_range n) (stdout w @ [Loading_policies_from cd])) = None"
    by (rule print_agents_total) (simp add: nested_nonempty assms)
  then show ?thesis
    using assms
    by (auto simp: get_policy_mapping_fn_def get_policy_mapping_fn_try_def
             split: prod.splits option.splits)
qed

lemma gpmf_empty_pos:
  assumes "list_policies (fs w) cd = Inr []" "0 < n"
  shows "fst (get_policy_mapping_fn cd n w) = (\<lambda>agent_id extra. Inr (''policy_'' @ str_int agent_id))"
  using assms
  by (simp add: get_policy_mapping_fn_def get_policy_mapping_fn_try_def py_range_pos nested_empty)

lemma gpmf_empty_nonpos:
  assumes "list_policies (fs w) cd = Inr []" "n \<le> 0"
  shows "fst (get_policy_mapping_fn cd n w) = policy_mapping_fn_nested []"
  using assms
  by (simp add: get_policy_mapping_fn_def get_policy_mapping_fn_try_def py_range_nonpos)

subsection \<open>Both functions read the filesystem and leave it alone\<close>

lemma get_checkpoint_dir_world: "snd (get_checkpoint_dir d w) = w"
  by (simp add: get_checkpoint_dir_def split: sum.splits)

lemma get_policy_mapping_fn_try_fs:
  "fs (snd (get_policy_mapping_fn_try cd n w :: (exn + 'x mapping_fn) \<times> 't world)) = fs w"
  by (simp add: get_policy_mapping_fn_try_def split: sum.splits prod.splits option.splits)

lemma get_policy_mapping_fn_fs:
  "fs (snd (get_policy_mapping_fn cd n w :: 'x mapping_fn \<times> 't world)) = fs w"
proof (cases "get_policy_mapping_fn_try cd n w :: (exn + 'x mapping_fn) \<times> 't world")
  case (Pair r w')
  then have "fs w' = fs w"
    using get_policy_mapping_fn_try_fs [of cd n w, where ?'x = 'x] by simp
  then show ?thesis using Pair by (cases r) (simp_all add: get_policy_mapping_fn_def)
qed

lemma get_policy_mapping_fn_try_reads_fs:
  fixes w v :: "'t world"
  assumes "fs w = fs v"
  shows "fst (get_policy_mapping_fn_try cd n w) = (fst (get_policy_mapping_fn_try cd n v) :: exn + 'x mapping_fn)"
proof (cases "list_policies (fs v) cd")
  case (Inl e)
  then show ?thesis using assms by (simp add: get_policy_mapping_fn_try_def)
next
  case (Inr ps)
  have "fst (print_agents (policy_mapping_fn_nested ps :: 'x mapping_fn) (py_range n)
              (stdout w @ [Loading_policies_from cd]))
      = fst (print_agents (policy_mapping_fn_nested ps :: 'x mapping_fn) (py_range n)
              (stdout v @ [Loading_policies_from cd]))"
    by (rule print_agents_result)
  then show ?thesis using assms Inr
    by (auto simp: get_policy_mapping_fn_try_def split: prod.splits option.splits)
qed

lemma get_policy_mapping_fn_reads_fs:
  fixes w v :: "'t world"
  assumes "fs w = fs v"
  shows "fst (get_policy_mapping_fn cd n w) = (fst (get_policy_mapping_fn cd n v) :: 'x mapping_fn)"
proof -
  have "\<And>u :: 't world. fst (get_policy_mapping_fn cd n u) =
      (case fst (get_policy_mapping_fn_try cd n u) of
         Inl e \<Rightarrow> (\<lambda>agent_id extra. Inr (''policy_'' @ str_int agent_id))
       | Inr f \<Rightarrow> (f :: 'x mapping_fn))"
    by (simp add: get_policy_mapping_fn_def split: sum.splits prod.splits)
  then show ?thesis
    by (simp add: get_policy_mapping_fn_try_reads_fs [OF assms])
qed

section \<open>The claims\<close>

text \<open>
  C1. For every checkpoint directory whose \<open>policies\<close> subdirectory holds \<open>N \<ge> 1\<close> policy
  subdirectories, the returned function maps agent \<open>i\<close> to the \<open>(i mod N)\<close>-th sorted policy
  name. The source accepts \<open>checkpoint_dir\<close> as \<open>Path | str | None\<close> (its docstring: "Path
  or str"), but applies \<open>/\<close> to it directly: for a \<open>str\<close> that raises \<open>TypeError\<close>, and the
  bare \<open>except\<close> answers with the fallback. On the example tree, the checkpoint
  \<open>runs/b/ckpt2\<close> given as a string sends agent 0 to \<open>policy_0\<close>; the same directory given
  as a path object sends it to \<open>policy_a\<close>, as the claim says.
\<close>

theorem get_policy_mapping_fn_str_checkpoint_dir:
  "fst (get_policy_mapping_fn (PyStr ''runs/b/ckpt2'') 2 example_world) 0 ([], []) = Inr ''policy_0''
   \<and> fst (get_policy_mapping_fn (PyPath (Path_of_str ''runs/b/ckpt2'')) 2 example_world) 0 ([], [])
       = Inr ''policy_a''"
  by (simp add: run_defs example_defs)

text \<open>
  C2. When the search yields one or more markers (and no filesystem error occurs: the
  root is a path or a string, the home directory expands, the search ends normally and
  every marker's modification time can be read), \<open>get_checkpoint_dir\<close> returns the parent
  directory of a marker whose modification time is the greatest.
\<close>

theorem get_checkpoint_dir_latest:
  fixes w :: "('t::linorder) world"
  assumes "Path_ctor search_dir = Inr p"
    and "expanduser (fs w) p = Inr p'"
    and "glob (fs w) p' ''**/*.is_checkpoint'' = (ms, None)"
    and "ms \<noteq> []"
    and "\<forall>m\<in>set ms. getmtime (fs w) m = Inr (mtime m)"
  shows "\<exists>m\<in>set ms. get_checkpoint_dir search_dir w = (Some (parent m), w)
                     \<and> (\<forall>m'\<in>set ms. mtime m' \<le> mtime m)"
proof -
  let ?s = "map snd (sort_key fst (zip (map mtime ms) ms))"
  have srt: "py_sorted_key (getmtime (fs w)) (ms, None) = Inr ?s"
    by (rule py_sorted_key_ok) (simp add: assms(5))
  have sne: "?s \<noteq> []" using assms(4) by (cases ms) (auto simp: length_0_conv [symmetric] simp del: length_0_conv)
  obtain m where m: "m \<in> set ms" "last ?s = m" "\<forall>x\<in>set ms. mtime x \<le> mtime m"
    using last_decorated [OF assms(4), of mtime] by blast
  have "get_checkpoint_dir_try (fs w) search_dir = Inr (Some (parent m))"
    using assms(1-3) srt m(2) sne
    by (simp add: get_checkpoint_dir_try_def bind_exn_simps gen_truthy_def py_getitem_last)
  then have "get_checkpoint_dir search_dir w = (Some (parent m), w)"
    by (simp add: get_checkpoint_dir_def)
  with m show ?thesis by blast
qed

theorem get_checkpoint_dir_latest_witness:
  "get_checkpoint_dir (PyStr ''runs'') example_world = (Some ckpt2, example_world)"
proof -
  let ?mt = "\<lambda>m. if m = truediv ckpt1 ''.is_checkpoint'' then (1::int) else 2"
  have "\<exists>m\<in>set [truediv ckpt1 ''.is_checkpoint'', truediv ckpt2 ''.is_checkpoint''].
          get_checkpoint_dir (PyStr ''runs'') example_world = (Some (parent m), example_world)
          \<and> (\<forall>m'\<in>set [truediv ckpt1 ''.is_checkpoint'', truediv ckpt2 ''.is_checkpoint''].
                ?mt m' \<le> ?mt m)"
    by (rule get_checkpoint_dir_latest [where p = runs and p' = runs])
       (simp_all add: example_defs)
  then show ?thesis
    by (simp add: example_defs parent_def)
qed

text \<open>
  C3. For an absent checkpoint directory (\<open>None\<close>), or a checkpoint path that cannot be
  used (listing its \<open>policies\<close> directory raises, or asking whether one of the entries is
  a directory raises), and for any number of agents, \<open>get_policy_mapping_fn\<close> returns the
  fallback: agent \<open>i \<ge> 0\<close> is sent to \<open>policy_\<close> followed by the decimal digits of \<open>i\<close>.
\<close>

theorem get_policy_mapping_fn_fallback:
  assumes "checkpoint_dir = PyNone
         \<or> (\<exists>d. checkpoint_dir = PyPath d
               \<and> (snd (iterdir (fs w) (truediv d ''policies'')) \<noteq> None
                  \<or> (\<exists>e\<in>set (fst (iterdir (fs w) (truediv d ''policies''))).
                        \<exists>x. is_dir (fs w) e = Inl x)))"
    and "0 \<le> i"
  shows "fst (get_policy_mapping_fn checkpoint_dir num_agents w) i x = Inr (''policy_'' @ str_int i)"
proof -
  have "\<exists>e. list_policies (fs w) checkpoint_dir = Inl e"
    using assms(1) list_policies_raise [of "fs w"] list_policies_is_dir_raises [of _ "fs w"]
    by (auto simp: list_policies_def bind_exn_simps)
  then show ?thesis by (auto simp: gpmf_listing_raises)
qed

theorem get_policy_mapping_fn_fallback_witness:
  "fst (get_policy_mapping_fn PyNone 3 example_world) 0 ([] :: nat list, []) = Inr ''policy_0''
   \<and> fst (get_policy_mapping_fn PyNone 3 example_world) 5 ([] :: nat list, []) = Inr ''policy_5''
   \<and> fst (get_policy_mapping_fn (PyPath (Path [] [''nowhere''])) 0 example_world) 12 ([] :: nat list, [])
       = Inr ''policy_12''
   \<and> fst (get_policy_mapping_fn (PyPath ckpt2) 3
             (example_world\<lparr>fs := example_fs\<lparr>is_dir := \<lambda>e. Inl PermissionError\<rparr>\<rparr>)) 1 ([] :: nat list, [])
       = Inr ''policy_1''"
proof -
  have a: "snd (iterdir (fs example_world) (truediv (Path [] [''nowhere'']) ''policies'')) \<noteq> None"
    by (simp add: example_defs)
  have b: "\<exists>e\<in>set (fst (iterdir (fs (example_world\<lparr>fs := example_fs\<lparr>is_dir := \<lambda>e. Inl PermissionError\<rparr>\<rparr>))
                 (truediv ckpt2 ''policies''))).
             \<exists>x. is_dir (fs (example_world\<lparr>fs := example_fs\<lparr>is_dir := \<lambda>e. Inl PermissionError\<rparr>\<rparr>)) e = Inl x"
    by (auto simp: example_defs)
  show ?thesis
    using get_policy_mapping_fn_fallback [of PyNone example_world 0 3 "([] :: nat list, [])"]
      get_policy_mapping_fn_fallback [of PyNone example_world 5 3 "([] :: nat list, [])"]
      get_policy_mapping_fn_fallback [of "PyPath (Path [] [''nowhere''])" example_world 12 0 "([] :: nat list, [])"] a
      get_policy_mapping_fn_fallback [of "PyPath ckpt2"
         "example_world\<lparr>fs := example_fs\<lparr>is_dir := \<lambda>e. Inl PermissionError\<rparr>\<rparr>" 1 3 "([] :: nat list, [])"] b
    by (simp add: str_int_def str_nat.simps digit_char_def)
qed

text \<open>
  C4. \<open>get_checkpoint_dir\<close> returns \<open>None\<close>, and leaves the world as it was, when the root
  is \<open>None\<close>, when expanding the home directory raises, when the search yields no marker
  (which is what a path that does not exist or is malformed gives), when the search
  raises, and when the modification time of a marker cannot be read. It never raises: its
  result is a value for every input, the bare \<open>except\<close> having caught whatever was raised.
\<close>

theorem get_checkpoint_dir_absent:
  fixes w :: "('t::linorder) world"
  assumes "search_dir = PyNone
         \<or> (\<exists>p e. Path_ctor search_dir = Inr p \<and> expanduser (fs w) p = Inl e)
         \<or> (\<exists>p p' ms t. Path_ctor search_dir = Inr p \<and> expanduser (fs w) p = Inr p'
               \<and> glob (fs w) p' ''**/*.is_checkpoint'' = (ms, t)
               \<and> (ms = [] \<or> t \<noteq> None \<or> (\<exists>m\<in>set ms. \<exists>e. getmtime (fs w) m = Inl e)))"
  shows "get_checkpoint_dir search_dir w = (None, w)"
proof -
  have "\<exists>e. get_checkpoint_dir_try (fs w) search_dir = Inl e"
    using assms
  proof (elim disjE exE conjE bexE)
    assume "search_dir = PyNone"
    then show ?thesis by (simp add: get_checkpoint_dir_try_def bind_exn_simps)
  next
    fix p e assume "Path_ctor search_dir = Inr p" "expanduser (fs w) p = Inl e"
    then show ?thesis by (simp add: get_checkpoint_dir_try_def bind_exn_simps)
  next
    fix p p' ms t
    assume a: "Path_ctor search_dir = Inr p" "expanduser (fs w) p = Inr p'"
      "glob (fs w) p' ''**/*.is_checkpoint'' = (ms, t)"
      and b: "ms = []"
    show ?thesis
    proof (cases t)
      case None
      with a b show ?thesis
        by (simp add: get_checkpoint_dir_try_def bind_exn_simps gen_truthy_def py_sorted_key_def py_getitem_empty)
    next
      case (Some e)
      with a show ?thesis
        by (simp add: get_checkpoint_dir_try_def bind_exn_simps gen_truthy_def py_sorted_key_def)
    qed
  next
    fix p p' ms t
    assume a: "Path_ctor search_dir = Inr p" "expanduser (fs w) p = Inr p'"
      "glob (fs w) p' ''**/*.is_checkpoint'' = (ms, t)"
      and b: "t \<noteq> None"
    then obtain e where "t = Some e" by auto
    with a show ?thesis
      by (simp add: get_checkpoint_dir_try_def bind_exn_simps gen_truthy_def py_sorted_key_def)
  next
    fix p p' ms t m e
    assume a: "Path_ctor search_dir = Inr p" "expanduser (fs w) p = Inr p'"
      "glob (fs w) p' ''**/*.is_checkpoint'' = (ms, t)"
      and b: "m \<in> set ms" "getmtime (fs w) m = Inl e"
    from map_exn_some_fails [of m ms "getmtime (fs w)" e, OF b] obtain e' where e': "map_exn (getmtime (fs w)) ms = Inl e'" by blast
    show ?thesis
    proof (cases t)
      case None
      with a e' show ?thesis
        by (simp add: get_checkpoint_dir_try_def bind_exn_simps gen_truthy_def py_sorted_key_def)
    next
      case (Some e2)
      with a show ?thesis
        by (simp add: get_checkpoint_dir_try_def bind_exn_simps gen_truthy_def py_sorted_key_def)
    qed
  qed
  then show ?thesis by (auto simp: get_checkpoint_dir_def)
qed

theorem get_checkpoint_dir_absent_witness:
  "get_checkpoint_dir PyNone example_world = (None, example_world)
   \<and> get_checkpoint_dir (PyStr ''~/nowhere'') example_world = (None, example_world)
   \<and> fst (get_checkpoint_dir (PyStr ''runs'')
        (example_world\<lparr>fs := example_fs\<lparr>expanduser := \<lambda>p. Inl RuntimeError\<rparr>\<rparr>)) = None
   \<and> fst (get_checkpoint_dir (PyStr ''runs'')
        (example_world\<lparr>fs := example_fs\<lparr>glob := \<lambda>p pat. ([], Some OSError)\<rparr>\<rparr>)) = None
   \<and> fst (get_checkpoint_dir (PyStr ''runs'')
        (example_world\<lparr>fs := example_fs\<lparr>getmtime := \<lambda>m. Inl PermissionError\<rparr>\<rparr>)) = None"
proof -
  have a: "get_checkpoint_dir PyNone example_world = (None, example_world)"
    by (rule get_checkpoint_dir_absent) simp
  have b: "get_checkpoint_dir (PyStr ''~/nowhere'') example_world = (None, example_world)"
    by (rule get_checkpoint_dir_absent) (simp add: example_defs)
  have c: "get_checkpoint_dir (PyStr ''runs'')
        (example_world\<lparr>fs := example_fs\<lparr>expanduser := \<lambda>p. Inl RuntimeError\<rparr>\<rparr>)
      = (None, example_world\<lparr>fs := example_fs\<lparr>expanduser := \<lambda>p. Inl RuntimeError\<rparr>\<rparr>)"
    by (rule get_checkpoint_dir_absent) simp
  have d: "get_checkpoint_dir (PyStr ''runs'')
        (example_world\<lparr>fs := example_fs\<lparr>glob := \<lambda>p pat. ([], Some OSError)\<rparr>\<rparr>)
      = (None, example_world\<lparr>fs := example_fs\<lparr>glob := \<lambda>p pat. ([], Some OSError)\<rparr>\<rparr>)"
    by (rule get_checkpoint_dir_absent) (simp add: example_defs)
  have e: "get_checkpoint_dir (PyStr ''runs'')
        (example_world\<lparr>fs := example_fs\<lparr>getmtime := \<lambda>m. Inl PermissionError\<rparr>\<rparr>)
      = (None, example_world\<lparr>fs := example_fs\<lparr>getmtime := \<lambda>m. Inl PermissionError\<rparr>\<rparr>)"
    by (rule get_checkpoint_dir_absent) (auto simp: example_defs)
  from a b c d e show ?thesis by simp
qed

text \<open>
  C5. For a checkpoint directory whose \<open>policies\<close> subdirectory is missing or unreadable
  (listing it raises, or \<open>is_dir\<close> raises on an entry) or holds no policy subdirectory (no
  entry is a directory), and for every positive number of agents, \<open>get_policy_mapping_fn\<close>
  returns the fallback function.
\<close>

theorem get_policy_mapping_fn_no_policies:
  assumes "0 < num_agents"
    and "checkpoint_dir = PyPath d"
    and "snd (iterdir (fs w) (truediv d ''policies'')) \<noteq> None
         \<or> (\<exists>e\<in>set (fst (iterdir (fs w) (truediv d ''policies''))). \<exists>x. is_dir (fs w) e = Inl x)
         \<or> (\<forall>e\<in>set (fst (iterdir (fs w) (truediv d ''policies''))). is_dir (fs w) e = Inr False)"
  shows "fst (get_policy_mapping_fn checkpoint_dir num_agents w) agent_id x
           = Inr (''policy_'' @ str_int agent_id)"
proof -
  consider (listing) "snd (iterdir (fs w) (truediv d ''policies'')) \<noteq> None"
    | (stat) "\<exists>e\<in>set (fst (iterdir (fs w) (truediv d ''policies''))). \<exists>x. is_dir (fs w) e = Inl x"
    | (none) "snd (iterdir (fs w) (truediv d ''policies'')) = None"
        "\<forall>e\<in>set (fst (iterdir (fs w) (truediv d ''policies''))). is_dir (fs w) e = Inr False"
    using assms(3) by blast
  then show ?thesis
  proof cases
    case listing
    then obtain e' where "list_policies (fs w) checkpoint_dir = Inl e'"
      using list_policies_raise [of "fs w" d] assms(2) by auto
    then show ?thesis by (simp add: gpmf_listing_raises)
  next
    case stat
    then obtain e' where "list_policies (fs w) checkpoint_dir = Inl e'"
      using list_policies_is_dir_raises [of _ "fs w" d] assms(2) by auto
    then show ?thesis by (simp add: gpmf_listing_raises)
  next
    case none
    from none(1) have "iterdir (fs w) (truediv d ''policies'')
                 = (fst (iterdir (fs w) (truediv d ''policies'')), None)"
      by (simp add: prod_eq_iff)
    then have "list_policies (fs w) checkpoint_dir = Inr []"
      using assms(2) none(2) by (simp add: list_policies_none_dirs)
    then show ?thesis using assms(1) by (simp add: gpmf_empty_pos)
  qed
qed

theorem get_policy_mapping_fn_no_policies_witness:
  "fst (get_policy_mapping_fn (PyPath (Path [] [''nowhere''])) 2 example_world) 1 ([] :: nat list, [])
      = Inr ''policy_1''
   \<and> fst (get_policy_mapping_fn (PyPath (Path [] [''locked''])) 2 example_world) 1 ([] :: nat list, [])
      = Inr ''policy_1''
   \<and> fst (get_policy_mapping_fn (PyPath ckpt1) 2 example_world) 1 ([] :: nat list, []) = Inr ''policy_1''"
proof -
  have a: "snd (iterdir (fs example_world) (truediv (Path [] [''nowhere'']) ''policies'')) \<noteq> None"
    by (simp add: example_defs)
  have b: "snd (iterdir (fs example_world) (truediv (Path [] [''locked'']) ''policies'')) \<noteq> None"
    by (simp add: example_defs)
  have c: "\<forall>e\<in>set (fst (iterdir (fs example_world) (truediv ckpt1 ''policies''))).
             is_dir (fs example_world) e = Inr False"
    by (simp add: example_defs)
  show ?thesis
    using get_policy_mapping_fn_no_policies [of 2 _ "Path [] [''nowhere'']" example_world 1 "([] :: nat list, [])", OF _ refl]
      get_policy_mapping_fn_no_policies [of 2 _ "Path [] [''locked'']" example_world 1 "([] :: nat list, [])", OF _ refl]
      get_policy_mapping_fn_no_policies [of 2 _ ckpt1 example_world 1 "([] :: nat list, [])", OF _ refl] a b c
    by (simp add: str_int_def str_nat.simps digit_char_def)
qed

text \<open>
  C6. For every \<open>checkpoint_dir\<close> and every positive number of agents, the returned function
  yields a policy identifier, and raises nothing, for every agent identifier \<open>i \<ge> 0\<close>,
  also beyond the number of agents.
\<close>

theorem get_policy_mapping_fn_total:
  assumes "0 < num_agents" and "0 \<le> i"
  shows "\<exists>pid. fst (get_policy_mapping_fn checkpoint_dir num_agents w) i x = Inr pid"
proof (cases "list_policies (fs w) checkpoint_dir")
  case (Inl e)
  then show ?thesis by (simp add: gpmf_listing_raises)
next
  case (Inr ps)
  show ?thesis
  proof (cases "ps = []")
    case True
    with Inr assms(1) show ?thesis by (simp add: gpmf_empty_pos)
  next
    case False
    with Inr show ?thesis by (simp add: gpmf_nonempty nested_nonempty)
  qed
qed

theorem get_policy_mapping_fn_total_witness:
  "(\<exists>pid. fst (get_policy_mapping_fn (PyPath ckpt2) 2 example_world) 7 ([] :: nat list, []) = Inr pid)
   \<and> (\<exists>pid. fst (get_policy_mapping_fn (PyPath ckpt1) 2 example_world) 7 ([] :: nat list, []) = Inr pid)
   \<and> (\<exists>pid. fst (get_policy_mapping_fn PyNone 2 example_world) 7 ([] :: nat list, []) = Inr pid)"
  using get_policy_mapping_fn_total [of 2 7 "PyPath ckpt2" example_world "([] :: nat list, [])"]
    get_policy_mapping_fn_total [of 2 7 "PyPath ckpt1" example_world "([] :: nat list, [])"]
    get_policy_mapping_fn_total [of 2 7 PyNone example_world "([] :: nat list, [])"]
  by simp

text \<open>
  C7. The policy directories are sorted by name before the mapping is built: when
  \<open>policies\<close> can be listed and its entries are its children, the names of the list the
  closure captures are the names of the subdirectories in ascending lexicographic order,
  and the closure indexes that list cyclically. On the example tree, where \<open>policy_b\<close> is
  listed before \<open>policy_a\<close>, the order is \<open>[policy_a, policy_b]\<close> and agents 0, 1, 2 are
  sent to \<open>policy_a\<close>, \<open>policy_b\<close>, \<open>policy_a\<close>.
\<close>

theorem policies_sorted_by_name:
  assumes "iterdir (fs w) (truediv d ''policies'') = (es, None)"
    and "\<forall>e\<in>set es. is_dir (fs w) e = Inr (isd e) \<and> child_of (truediv d ''policies'') e"
  shows "\<exists>ps. list_policies (fs w) (PyPath d) = Inr ps
            \<and> map name ps = sort (map name (filter isd es))
            \<and> (ps \<noteq> [] \<longrightarrow> (\<forall>i x. fst (get_policy_mapping_fn (PyPath d) n w) i (x :: 'x extras)
                   = Inr (sort (map name (filter isd es)) ! nat (i mod int (length ps)))))"
proof -
  let ?ps = "py_sorted (filter isd es)"
  have lp: "list_policies (fs w) (PyPath d) = Inr ?ps"
    using assms by (intro list_policies_ok) simp_all
  have nm: "map name ?ps = sort (map name (filter isd es))"
    using assms(2) by (intro sort_children [of _ "truediv d ''policies''"]) simp
  have "\<forall>i x. fst (get_policy_mapping_fn (PyPath d) n w) i (x :: 'x extras)
                   = Inr (sort (map name (filter isd es)) ! nat (i mod int (length ?ps)))"
    if ne: "?ps \<noteq> []"
  proof (intro allI)
    fix i and x :: "'x extras"
    have pos: "0 < int (length ?ps)" using ne by simp
    have "0 \<le> i mod int (length ?ps)" "i mod int (length ?ps) < int (length ?ps)"
      using pos by simp_all
    then have lt: "nat (i mod int (length ?ps)) < length ?ps" by linarith
    have "fst (get_policy_mapping_fn (PyPath d) n w) i x = Inr (name (?ps ! nat (i mod int (length ?ps))))"
      by (simp add: gpmf_nonempty [OF lp ne] nested_nonempty [OF ne])
    also have "name (?ps ! nat (i mod int (length ?ps))) = map name ?ps ! nat (i mod int (length ?ps))"
      using lt by simp
    finally show "fst (get_policy_mapping_fn (PyPath d) n w) i x
        = Inr (sort (map name (filter isd es)) ! nat (i mod int (length ?ps)))"
      by (simp only: nm)
  qed
  with lp nm show ?thesis by blast
qed

theorem policies_sorted_by_name_witness:
  "list_policies (fs example_world) (PyPath ckpt2)
     = Inr [truediv (truediv ckpt2 ''policies'') ''policy_a'',
            truediv (truediv ckpt2 ''policies'') ''policy_b'']
   \<and> fst (get_policy_mapping_fn (PyPath ckpt2) 3 example_world) 0 ([] :: nat list, []) = Inr ''policy_a''
   \<and> fst (get_policy_mapping_fn (PyPath ckpt2) 3 example_world) 1 ([] :: nat list, []) = Inr ''policy_b''
   \<and> fst (get_policy_mapping_fn (PyPath ckpt2) 3 example_world) 2 ([] :: nat list, []) = Inr ''policy_a''"
proof -
  let ?isd = "\<lambda>e. e \<noteq> truediv (truediv ckpt2 ''policies'') ''notes.txt''"
  let ?es = "[truediv (truediv ckpt2 ''policies'') ''policy_b'',
              truediv (truediv ckpt2 ''policies'') ''policy_a'',
              truediv (truediv ckpt2 ''policies'') ''notes.txt'']"
  have a: "iterdir (fs example_world) (truediv ckpt2 ''policies'') = (?es, None)"
    by (simp add: example_defs)
  have b: "\<forall>e\<in>set ?es. is_dir (fs example_world) e = Inr (?isd e)
             \<and> child_of (truediv ckpt2 ''policies'') e"
    by (simp add: example_defs child_of_def name_def)
  have ids: "sort (map name (filter ?isd ?es)) = [''policy_a'', ''policy_b'']"
    by (simp add: example_defs name_def)
  from policies_sorted_by_name [OF a b, of 3, where ?'x = nat]
  obtain ps where ps: "list_policies (fs example_world) (PyPath ckpt2) = Inr ps"
      "map name ps = sort (map name (filter ?isd ?es))"
      "ps \<noteq> [] \<longrightarrow> (\<forall>i x. fst (get_policy_mapping_fn (PyPath ckpt2) 3 example_world) i (x :: nat extras)
                   = Inr (sort (map name (filter ?isd ?es)) ! nat (i mod int (length ps))))"
    by blast
  have len: "length ps = 2" using ps(2) ids by (metis length_map length_Cons list.size(3) One_nat_def Suc_1)
  then have ne: "ps \<noteq> []" by auto
  have m: "\<And>i. fst (get_policy_mapping_fn (PyPath ckpt2) 3 example_world) i ([] :: nat list, [])
                   = Inr ([''policy_a'', ''policy_b''] ! nat (i mod 2))"
    using ps(3) ne len ids by simp
  have l: "list_policies (fs example_world) (PyPath ckpt2)
     = Inr [truediv (truediv ckpt2 ''policies'') ''policy_a'',
            truediv (truediv ckpt2 ''policies'') ''policy_b'']"
    by (simp add: run_defs example_defs)
  show ?thesis using l m [of 0] m [of 1] m [of 2] by simp
qed

text \<open>
  C8. Calling either function twice on an unchanged filesystem gives the same result:
  the second call of \<open>get_checkpoint_dir\<close>, run in the world the first leaves, returns the
  same directory, and the second call of \<open>get_policy_mapping_fn\<close>, run in the world the
  first leaves (whose standard output has grown), returns a function that agrees with the
  first on every agent identifier. Neither call changes the filesystem.
\<close>

theorem calls_idempotent:
  fixes w :: "('t::linorder) world" and f1 f2 :: "'x mapping_fn"
  assumes "get_checkpoint_dir search_dir w = (r1, w1)"
    and "get_checkpoint_dir search_dir w1 = (r2, w2)"
    and "get_policy_mapping_fn checkpoint_dir num_agents w = (f1, v1)"
    and "get_policy_mapping_fn checkpoint_dir num_agents v1 = (f2, v2)"
  shows "r1 = r2 \<and> (\<forall>i x. 0 \<le> i \<longrightarrow> f1 i x = f2 i x) \<and> fs w2 = fs w \<and> fs v2 = fs w"
proof -
  have w1: "w1 = w" using get_checkpoint_dir_world [of search_dir w] assms(1) by simp
  have w2: "w2 = w1" using get_checkpoint_dir_world [of search_dir w1] assms(2) by simp
  have r: "r1 = r2" using assms(1,2) w1 by simp
  have v1: "fs v1 = fs w"
    using get_policy_mapping_fn_fs [of checkpoint_dir num_agents w, where ?'x = 'x] assms(3) by simp
  have v2: "fs v2 = fs v1"
    using get_policy_mapping_fn_fs [of checkpoint_dir num_agents v1, where ?'x = 'x] assms(4) by simp
  have "f2 = f1"
    using get_policy_mapping_fn_reads_fs [OF v1, of checkpoint_dir num_agents, where ?'x = 'x] assms(3,4)
    by simp
  with r w1 w2 v1 v2 show ?thesis by simp
qed

theorem calls_idempotent_witness:
  "fst (get_checkpoint_dir (PyStr ''runs'') example_world)
     = fst (get_checkpoint_dir (PyStr ''runs'') (snd (get_checkpoint_dir (PyStr ''runs'') example_world)))
   \<and> fst (get_policy_mapping_fn (PyPath ckpt2) 2 example_world) 1 (([], []) :: 'x extras)
     = fst (get_policy_mapping_fn (PyPath ckpt2) 2
              (snd (get_policy_mapping_fn (PyPath ckpt2) 2 example_world :: 'x mapping_fn \<times> int world)))
         1 (([], []) :: 'x extras)
   \<and> stdout (snd (get_policy_mapping_fn (PyPath ckpt2) 2 example_world :: 'x mapping_fn \<times> int world))
     \<noteq> stdout example_world"
proof -
  obtain r1 w1 where a: "get_checkpoint_dir (PyStr ''runs'') example_world = (r1, w1)"
    by (cases "get_checkpoint_dir (PyStr ''runs'') example_world")
  obtain r2 w2 where b: "get_checkpoint_dir (PyStr ''runs'') w1 = (r2, w2)"
    by (cases "get_checkpoint_dir (PyStr ''runs'') w1")
  obtain f1 :: "'x mapping_fn" and v1
    where c: "get_policy_mapping_fn (PyPath ckpt2) 2 example_world = (f1, v1)"
    by (cases "get_policy_mapping_fn (PyPath ckpt2) 2 example_world :: 'x mapping_fn \<times> int world")
  obtain f2 :: "'x mapping_fn" and v2
    where d: "get_policy_mapping_fn (PyPath ckpt2) 2 v1 = (f2, v2)"
    by (cases "get_policy_mapping_fn (PyPath ckpt2) 2 v1 :: 'x mapping_fn \<times> int world")
  have out: "stdout (snd (get_policy_mapping_fn (PyPath ckpt2) 2 example_world :: 'x mapping_fn \<times> int world))
     \<noteq> stdout example_world"
    by (simp add: get_policy_mapping_fn_def get_policy_mapping_fn_try_def list_policies_def
          bind_exn_simps example_defs py_sorted_def path_key_def py_range_def upto_rec1
          policy_mapping_fn_nested_def py_mod_def py_getitem_def name_def)
  from calls_idempotent [OF a b c d] a b c d out show ?thesis by simp
qed

text \<open>
  C9. Whenever the \<open>try\<close> block of \<open>get_policy_mapping_fn\<close> raises, the function returned
  agrees with the module-level \<open>policy_mapping_fn\<close> on every agent identifier, whatever
  extra arguments either is given: both return \<open>policy_\<close> followed by the identifier.
\<close>

theorem fallback_equals_policy_mapping_fn:
  assumes "fst (get_policy_mapping_fn_try checkpoint_dir num_agents w
                  :: (exn + 'x mapping_fn) \<times> 't world) = Inl e"
  shows "fst (get_policy_mapping_fn checkpoint_dir num_agents w) agent_id (x :: 'x extras)
           = policy_mapping_fn agent_id (y :: 'y extras)
       \<and> policy_mapping_fn agent_id y = Inr (''policy_'' @ str_int agent_id)"
  using assms
  by (cases "get_policy_mapping_fn_try checkpoint_dir num_agents w :: (exn + 'x mapping_fn) \<times> 't world")
     (simp add: get_policy_mapping_fn_def policy_mapping_fn_def)

theorem fallback_equals_policy_mapping_fn_witness:
  "fst (get_policy_mapping_fn PyNone 2 example_world) 4 ([1::nat], [(''episode'', 2)])
      = policy_mapping_fn 4 ([] :: nat list, [])
   \<and> fst (get_policy_mapping_fn (PyPath ckpt1) 2 example_world) (- 3) ([] :: nat list, [])
      = policy_mapping_fn (- 3) ([] :: nat list, [])
   \<and> policy_mapping_fn (- 3) ([] :: nat list, []) = Inr ''policy_-3''"
proof -
  have a: "fst (get_policy_mapping_fn_try PyNone 2 example_world
                  :: (exn + nat mapping_fn) \<times> int world) = Inl TypeError"
    by (simp add: get_policy_mapping_fn_try_def list_policies_def bind_exn_simps)
  have b: "fst (get_policy_mapping_fn_try (PyPath ckpt1) 2 example_world
                  :: (exn + nat mapping_fn) \<times> int world) = Inl ZeroDivisionError"
    by (simp add: run_defs example_defs)
  show ?thesis
    using fallback_equals_policy_mapping_fn [OF a, of 4 "([1], [(''episode'', 2)])" "([] :: nat list, [])"]
      fallback_equals_policy_mapping_fn [OF b, of "- 3" "([], [])" "([] :: nat list, [])"]
    by (simp add: str_int_def str_nat.simps digit_char_def)
qed

text \<open>
  C10. When \<open>policies\<close> exists and holds no policy subdirectory, source line 44 succeeds
  with the empty list. With no agent to print (\<open>num_agents \<le> 0\<close>, in particular 0) the loop
  body never runs and the function returns the closure over the empty list, which raises
  \<open>ZeroDivisionError\<close> for every agent identifier. With \<open>num_agents \<ge> 1\<close> the loop's first
  call of the closure raises that exception inside the \<open>try\<close> block, and this is what
  leads to the fallback.
\<close>

theorem empty_policies_zero_agents:
  assumes "iterdir (fs w) (truediv d ''policies'') = (es, None)"
    and "\<forall>e\<in>set es. is_dir (fs w) e = Inr False"
  shows "list_policies (fs w) (PyPath d) = Inr []
       \<and> (num_agents \<le> 0 \<longrightarrow>
            fst (get_policy_mapping_fn (PyPath d) num_agents w) agent_id (x :: 'x extras)
              = Inl ZeroDivisionError)
       \<and> (0 < num_agents \<longrightarrow>
            fst (get_policy_mapping_fn_try (PyPath d) num_agents w
                   :: (exn + 'x mapping_fn) \<times> 't world) = Inl ZeroDivisionError
            \<and> fst (get_policy_mapping_fn (PyPath d) num_agents w) agent_id x
              = Inr (''policy_'' @ str_int agent_id))"
proof -
  have lp: "list_policies (fs w) (PyPath d) = Inr []"
    using assms by (rule list_policies_none_dirs)
  have z: "num_agents \<le> 0 \<Longrightarrow>
      fst (get_policy_mapping_fn (PyPath d) num_agents w) agent_id x = Inl ZeroDivisionError"
    by (simp add: gpmf_empty_nonpos [OF lp] nested_empty)
  have p1: "0 < num_agents \<Longrightarrow>
      fst (get_policy_mapping_fn_try (PyPath d) num_agents w
             :: (exn + 'x mapping_fn) \<times> 't world) = Inl ZeroDivisionError"
    by (simp add: get_policy_mapping_fn_try_def lp py_range_pos nested_empty)
  have p2: "0 < num_agents \<Longrightarrow>
      fst (get_policy_mapping_fn (PyPath d) num_agents w) agent_id x
        = Inr (''policy_'' @ str_int agent_id)"
    by (simp add: gpmf_empty_pos [OF lp])
  from lp z p1 p2 show ?thesis by blast
qed

theorem empty_policies_zero_agents_witness:
  "list_policies (fs example_world) (PyPath ckpt1) = Inr []
   \<and> fst (get_policy_mapping_fn (PyPath ckpt1) 0 example_world) 0 ([] :: nat list, [])
       = Inl ZeroDivisionError
   \<and> fst (get_policy_mapping_fn (PyPath ckpt1) 0 example_world) 5 ([] :: nat list, [])
       = Inl ZeroDivisionError
   \<and> fst (get_policy_mapping_fn (PyPath ckpt1) 1 example_world) 5 ([] :: nat list, [])
       = Inr ''policy_5''"
proof -
  have a: "iterdir (fs example_world) (truediv ckpt1 ''policies'')
             = ([truediv (truediv ckpt1 ''policies'') ''notes.txt''], None)"
    by (simp add: example_defs)
  have b: "\<forall>e\<in>set [truediv (truediv ckpt1 ''policies'') ''notes.txt''].
             is_dir (fs example_world) e = Inr False"
    by (simp add: example_defs)
  show ?thesis
    using empty_policies_zero_agents [OF a b, of 0 0 "([] :: nat list, [])"]
      empty_policies_zero_agents [OF a b, of 0 5 "([] :: nat list, [])"]
      empty_policies_zero_agents [OF a b, of 1 5 "([] :: nat list, [])"]
    by (simp add: str_int_def str_nat.simps digit_char_def)
qed

end
